theory Spec2Isabelle
  imports Main
begin

section \<open>Data model\<close>

text \<open>
  The records follow the JSON objects of the application. A note is
  \<^verbatim>\<open>{ id, userId, date, content, createdAt, updatedAt }\<close>; the field \<^verbatim>\<open>id\<close> is called
  \<open>note_id\<close> here, since \<open>id\<close> is the identity function of HOL. Timestamps are the ISO
  strings the code stores; \<^verbatim>\<open>Date.now()\<close> is a natural number of milliseconds.
\<close>

record Note =
  note_id :: string
  userId :: string
  date :: string
  content :: string
  createdAt :: string
  updatedAt :: string

text \<open>The body of a save request: \<^verbatim>\<open>{ date: selectedDate, content: content.trim() }\<close>.\<close>

record noteData =
  nd_date :: string
  nd_content :: string

text \<open>
  A queued operation, as \<^verbatim>\<open>syncQueue.add\<close> stores it: the fields of the operation passed in
  (\<^verbatim>\<open>method\<close>, here \<open>http_method\<close>, \<^verbatim>\<open>url\<close>, \<^verbatim>\<open>headers\<close>, \<^verbatim>\<open>body\<close>) and the two it adds (\<^verbatim>\<open>timestamp\<close>, \<^verbatim>\<open>retries\<close>).
\<close>

record operation =
  http_method :: string
  url :: string
  headers :: "(string \<times> string) list"
  body :: "noteData option"
  timestamp :: nat
  retries :: int

record User =
  user_id :: string
  username :: string

record Session =
  token :: string
  user :: User

section \<open>The browser's localStorage\<close>

text \<open>
  localStorage maps keys to strings, and the code only ever stores \<^verbatim>\<open>JSON.stringify\<close> of a
  note array, of an operation array or of a session, and reads them back with
  \<^verbatim>\<open>JSON.parse\<close>. An entry is modelled by the document it holds; \<open>Corrupt\<close> is an entry whose
  text \<^verbatim>\<open>JSON.parse\<close> rejects. Reading a document of another shape than the reader expects is
  treated like a rejected parse. \<^verbatim>\<open>setItem\<close> is modelled without a quota: the store accepts
  every write, so the \<^verbatim>\<open>catch\<close> branches that guard writes are never entered, and the
  functions that write return \<^verbatim>\<open>true\<close>.
\<close>

datatype item =
    NotesJSON "Note list"
  | QueueJSON "operation list"
  | SessionJSON Session
  | Corrupt

type_synonym localStorage = "string \<rightharpoonup> item"

definition getItem :: "localStorage \<Rightarrow> string \<Rightarrow> item option" where
  "getItem s key = s key"

definition setItem :: "localStorage \<Rightarrow> string \<Rightarrow> item \<Rightarrow> localStorage" where
  "setItem s key v = s(key \<mapsto> v)"

definition removeItem :: "localStorage \<Rightarrow> string \<Rightarrow> localStorage" where
  "removeItem s key = s(key := None)"

definition STORAGE_PREFIX :: string where
  "STORAGE_PREFIX = ''wellwork_''"

definition getUserKey :: "string \<Rightarrow> string \<Rightarrow> string" where
  "getUserKey uid key = STORAGE_PREFIX @ key @ ''_'' @ uid"

subsection \<open>notesStorage\<close>

text \<open>\<^verbatim>\<open>JSON.parse\<close> of an entry read as a note array; \<open>None\<close> is the exception.\<close>

fun parse_notes :: "item \<Rightarrow> Note list option" where
  "parse_notes (NotesJSON ns) = Some ns"
| "parse_notes _ = None"

definition notesStorage_save :: "localStorage \<Rightarrow> string \<Rightarrow> Note list \<Rightarrow> bool \<times> localStorage" where
  "notesStorage_save s uid ns =
     (let key = getUserKey uid ''notes''
      in (True, setItem s key (NotesJSON ns)))"

definition notesStorage_load :: "localStorage \<Rightarrow> string \<Rightarrow> Note list" where
  "notesStorage_load s uid =
     (let key = getUserKey uid ''notes''
      in case getItem s key of
           None \<Rightarrow> []
         | Some data \<Rightarrow> (case parse_notes data of Some ns \<Rightarrow> ns | None \<Rightarrow> []))"

definition notesStorage_clear :: "localStorage \<Rightarrow> string \<Rightarrow> localStorage" where
  "notesStorage_clear s uid = removeItem s (getUserKey uid ''notes'')"

subsection \<open>sessionStorage\<close>

fun parse_session :: "item \<Rightarrow> Session option" where
  "parse_session (SessionJSON x) = Some x"
| "parse_session _ = None"

definition sessionStorage_save :: "localStorage \<Rightarrow> Session \<Rightarrow> bool \<times> localStorage" where
  "sessionStorage_save s x = (True, setItem s (STORAGE_PREFIX @ ''session'') (SessionJSON x))"

definition sessionStorage_load :: "localStorage \<Rightarrow> Session option" where
  "sessionStorage_load s =
     (case getItem s (STORAGE_PREFIX @ ''session'') of
        None \<Rightarrow> None
      | Some data \<Rightarrow> parse_session data)"

definition sessionStorage_clear :: "localStorage \<Rightarrow> localStorage" where
  "sessionStorage_clear s = removeItem s (STORAGE_PREFIX @ ''session'')"

subsection \<open>syncQueue\<close>

fun parse_queue :: "item \<Rightarrow> operation list option" where
  "parse_queue (QueueJSON q) = Some q"
| "parse_queue _ = None"

definition syncQueue_getAll :: "localStorage \<Rightarrow> operation list" where
  "syncQueue_getAll s =
     (case getItem s (STORAGE_PREFIX @ ''sync_queue'') of
        None \<Rightarrow> []
      | Some data \<Rightarrow> (case parse_queue data of Some q \<Rightarrow> q | None \<Rightarrow> []))"

text \<open>
  \<^verbatim>\<open>syncQueue.add(operation)\<close> pushes \<^verbatim>\<open>{...operation, timestamp: Date.now(), retries: 0}\<close>; the
  argument \<open>now\<close> is \<^verbatim>\<open>Date.now()\<close>.
\<close>

definition syncQueue_add :: "nat \<Rightarrow> localStorage \<Rightarrow> operation \<Rightarrow> bool \<times> localStorage" where
  "syncQueue_add now s operation =
     (let queue = syncQueue_getAll s;
          queue = queue @ [operation\<lparr>timestamp := now, retries := 0\<rparr>]
      in (True, setItem s (STORAGE_PREFIX @ ''sync_queue'') (QueueJSON queue)))"

text \<open>\<^verbatim>\<open>queue.splice(index, 1)\<close>: an index past the end removes nothing.\<close>

definition splice1 :: "nat \<Rightarrow> 'a list \<Rightarrow> 'a list" where
  "splice1 index xs = take index xs @ drop (Suc index) xs"

definition syncQueue_remove :: "localStorage \<Rightarrow> nat \<Rightarrow> bool \<times> localStorage" where
  "syncQueue_remove s index =
     (let queue = syncQueue_getAll s;
          queue = splice1 index queue
      in (True, setItem s (STORAGE_PREFIX @ ''sync_queue'') (QueueJSON queue)))"

definition syncQueue_clear :: "localStorage \<Rightarrow> localStorage" where
  "syncQueue_clear s = removeItem s (STORAGE_PREFIX @ ''sync_queue'')"

section \<open>The network\<close>

text \<open>
  \<^verbatim>\<open>fetch\<close> either resolves with a response, or rejects: with a \<^verbatim>\<open>TypeError\<close> when the server
  cannot be reached, with an \<^verbatim>\<open>AbortError\<close> when the request's signal is aborted. The body
  of a response is a JSON array of notes, or \<open>None\<close> when \<^verbatim>\<open>response.json()\<close> rejects.
  \<^verbatim>\<open>response.ok\<close> is a status from 200 to 299. The network is a state \<open>'w\<close> that every
  request may change, so the order of the requests is part of the model.
\<close>

record response =
  status :: nat
  json :: "Note list option"

datatype fetch_result = Resolved response | TypeError | AbortError

definition ok :: "response \<Rightarrow> bool" where
  "ok r = (200 \<le> status r \<and> status r \<le> 299)"

record request =
  req_url :: string
  req_method :: string
  req_headers :: "(string \<times> string) list"
  req_body :: "noteData option"

type_synonym 'w fetch = "'w \<Rightarrow> request \<Rightarrow> fetch_result \<times> 'w"

section \<open>retryFailedRequests\<close>

text \<open>
  The headers of a request are an object, kept as the list of its keys and values in the
  order of insertion. \<open>spread base extra\<close> is \<^verbatim>\<open>{ ...base, ...extra }\<close>: a key of \<open>extra\<close> that
  \<open>base\<close> has takes the place of its value there, a new key goes to the end.
\<close>

fun set_header :: "string \<Rightarrow> string \<Rightarrow> (string \<times> string) list \<Rightarrow> (string \<times> string) list" where
  "set_header k v [] = [(k, v)]"
| "set_header k v (h # hs) = (if fst h = k then (k, v) # hs else h # set_header k v hs)"

definition spread :: "(string \<times> string) list \<Rightarrow> (string \<times> string) list \<Rightarrow> (string \<times> string) list" where
  "spread base extra = foldl (\<lambda>hs h. set_header (fst h) (snd h) hs) base extra"

text \<open>The request that replays a queued operation.\<close>

definition replay_request :: "string \<Rightarrow> string \<Rightarrow> operation \<Rightarrow> request" where
  "replay_request apiBaseUrl tok operation =
     \<lparr>req_url = apiBaseUrl @ url operation,
      req_method = http_method operation,
      req_headers = spread [(''Content-Type'', ''application/json''),
                            (''Authorization'', ''Bearer '' @ tok)] (headers operation),
      req_body = body operation\<rparr>"

text \<open>
  The two failure branches of the loop body (a response that is not ok, and the \<^verbatim>\<open>catch\<close>) are
  the same code: \<^verbatim>\<open>operation.retries++\<close> on the array read at the start of the pass, and
  \<^verbatim>\<open>syncQueue.remove(i)\<close> once the count is above 5.
\<close>

definition failed_attempt :: "nat \<Rightarrow> operation list \<times> localStorage \<Rightarrow> operation list \<times> localStorage" where
  "failed_attempt i = (\<lambda>(queue, s).
     let operation = (queue ! i)\<lparr>retries := retries (queue ! i) + 1\<rparr>;
         queue = queue[i := operation]
     in if retries operation > 5 then (queue, snd (syncQueue_remove s i)) else (queue, s))"

text \<open>
  \<^verbatim>\<open>retryFailedRequests\<close> is an async function: it runs until it awaits a \<^verbatim>\<open>fetch\<close>, and goes
  on when that request settles; other code can run in between. It is modelled twice. First
  as one function, \<open>retryFailedRequests\<close>, for a pass that nothing interrupts: every request
  is answered by the network as soon as it is sent. Then in steps, \<open>pass_start\<close> and
  \<open>pass_settle\<close>, one step for each stretch of code between two awaits, so that several
  passes can take turns on the same store.

  The loop \<^verbatim>\<open>for (let i = queue.length - 1; i >= 0; i--)\<close>: the counter \<open>Suc i\<close> is the
  iteration at index \<open>i\<close>, the counter \<open>0\<close> is the exit.
\<close>

fun retry_loop :: "'w fetch \<Rightarrow> string \<Rightarrow> string \<Rightarrow> nat \<Rightarrow>
    operation list \<times> localStorage \<times> 'w \<Rightarrow> operation list \<times> localStorage \<times> 'w" where
  "retry_loop fetch apiBaseUrl tok 0 st = st"
| "retry_loop fetch apiBaseUrl tok (Suc i) (queue, s, w) =
     (let operation = queue ! i;
          (r, w') = fetch w (replay_request apiBaseUrl tok operation)
      in case r of
           Resolved resp \<Rightarrow>
             if ok resp then retry_loop fetch apiBaseUrl tok i (queue, snd (syncQueue_remove s i), w')
             else (let (queue', s') = failed_attempt i (queue, s)
                   in retry_loop fetch apiBaseUrl tok i (queue', s', w'))
         | _ \<Rightarrow>
             (let (queue', s') = failed_attempt i (queue, s)
              in retry_loop fetch apiBaseUrl tok i (queue', s', w')))"

definition retryFailedRequests :: "'w fetch \<Rightarrow> string \<Rightarrow> string \<Rightarrow> localStorage \<times> 'w \<Rightarrow> localStorage \<times> 'w" where
  "retryFailedRequests fetch apiBaseUrl tok = (\<lambda>(s, w).
     let queue = syncQueue_getAll s
     in if length queue = 0 then (s, w)
        else (let (queue', s', w') = retry_loop fetch apiBaseUrl tok (length queue) (queue, s, w);
                  updatedQueue = syncQueue_getAll s'
              in (setItem s' (STORAGE_PREFIX @ ''sync_queue'') (QueueJSON updatedQueue), w')))"


subsection \<open>A pass in steps\<close>

text \<open>
  A pass that has started is either awaiting the answer to the request it sent for the
  operation at an index, or finished. \<open>Awaiting queue (Suc i)\<close> holds the array read at the
  start of the pass and the index \<open>i\<close> awaited.

  \<open>pass_start\<close> is the code up to the first \<^verbatim>\<open>await\<close>: the queue is read and, unless it is
  empty, the request for its last operation is sent. \<open>pass_settle r\<close> is the code that runs
  when the awaited request settles with \<open>r\<close>: the rest of the loop body for that index, on
  the store as it is by then, and either the request for the next index, or, after index 0,
  the statements that follow the loop. \<open>awaited\<close> is the operation whose answer a pass waits for.
\<close>

datatype pass = Awaiting "operation list" nat | Finished

definition pass_start :: "localStorage \<Rightarrow> pass" where
  "pass_start s =
     (let queue = syncQueue_getAll s
      in if length queue = 0 then Finished else Awaiting queue (length queue))"

fun pass_settle :: "fetch_result \<Rightarrow> pass \<times> localStorage \<Rightarrow> pass \<times> localStorage" where
  "pass_settle r (Awaiting queue (Suc i), s) =
     (let (queue', s') =
            (case r of
               Resolved resp \<Rightarrow>
                 if ok resp then (queue, snd (syncQueue_remove s i))
                 else failed_attempt i (queue, s)
             | _ \<Rightarrow> failed_attempt i (queue, s))
      in if i = 0 then
           (let updatedQueue = syncQueue_getAll s'
            in (Finished, setItem s' (STORAGE_PREFIX @ ''sync_queue'') (QueueJSON updatedQueue)))
         else (Awaiting queue' i, s'))"
| "pass_settle r (Awaiting queue 0, s) = (Finished, s)"
| "pass_settle r (Finished, s) = (Finished, s)"

fun awaited :: "pass \<Rightarrow> operation option" where
  "awaited (Awaiting queue (Suc i)) = Some (queue ! i)"
| "awaited (Awaiting queue 0) = None"
| "awaited Finished = None"

text \<open>
  Passes over one store. App starts a pass from \<^verbatim>\<open>checkHealth\<close>, which
  \<^verbatim>\<open>setInterval(checkHealth, 5000)\<close> runs every five seconds, when the health request
  succeeds and \<^verbatim>\<open>wasOffline\<close> is true; \<^verbatim>\<open>wasOffline = false\<close> comes after
  \<^verbatim>\<open>await retryFailedRequests(...)\<close> and the reload of the notes, so a pass that is still
  awaiting when the next check succeeds is joined by a second pass. An event is the start
  of the pass of a number, or the settling of the request that the pass of a number awaits.
  The state is the passes, the store, and the record of the answers: the number of the pass,
  the operation it awaited and the answer.
\<close>

datatype event = Start nat | Settle nat fetch_result

type_synonym passes = "(nat \<Rightarrow> pass) \<times> localStorage \<times> (nat \<times> operation option \<times> fetch_result) list"

fun step :: "passes \<Rightarrow> event \<Rightarrow> passes" where
  "step (ps, s, answers) (Start k) = (ps(k := pass_start s), s, answers)"
| "step (ps, s, answers) (Settle k r) =
     (let (p, s') = pass_settle r (ps k, s)
      in (ps(k := p), s', answers @ [(k, awaited (ps k), r)]))"

definition run_events :: "event list \<Rightarrow> localStorage \<Rightarrow> passes" where
  "run_events events s = foldl step (\<lambda>k. Finished, s, []) events"


section \<open>Strings\<close>

text \<open>
  A string is the list of the bytes of its UTF-8 text. \<^verbatim>\<open>String.prototype.trim\<close> strips,
  from both ends, the white space and the line terminators of ECMAScript: U+0009 to U+000D,
  U+0020, U+00A0, U+1680, U+2000 to U+200A, U+2028, U+2029, U+202F, U+205F, U+3000 and
  U+FEFF, listed below by their bytes. Then \<^verbatim>\<open>startsWith\<close>, and the decimal digits of
  \<^verbatim>\<open>Date.now()\<close> that a template literal writes. A string is falsy when it is empty, and so
  is \<^verbatim>\<open>null\<close>.
\<close>

definition WhiteSpace :: "string list" where
  "WhiteSpace =
     [[CHR 0x09], [CHR 0x0A], [CHR 0x0B], [CHR 0x0C], [CHR 0x0D], [CHR 0x20],
      [CHR 0xC2, CHR 0xA0],
      [CHR 0xE1, CHR 0x9A, CHR 0x80],
      [CHR 0xE2, CHR 0x80, CHR 0x80], [CHR 0xE2, CHR 0x80, CHR 0x81],
      [CHR 0xE2, CHR 0x80, CHR 0x82], [CHR 0xE2, CHR 0x80, CHR 0x83],
      [CHR 0xE2, CHR 0x80, CHR 0x84], [CHR 0xE2, CHR 0x80, CHR 0x85],
      [CHR 0xE2, CHR 0x80, CHR 0x86], [CHR 0xE2, CHR 0x80, CHR 0x87],
      [CHR 0xE2, CHR 0x80, CHR 0x88], [CHR 0xE2, CHR 0x80, CHR 0x89],
      [CHR 0xE2, CHR 0x80, CHR 0x8A],
      [CHR 0xE2, CHR 0x80, CHR 0xA8], [CHR 0xE2, CHR 0x80, CHR 0xA9],
      [CHR 0xE2, CHR 0x80, CHR 0xAF],
      [CHR 0xE2, CHR 0x81, CHR 0x9F],
      [CHR 0xE3, CHR 0x80, CHR 0x80],
      [CHR 0xEF, CHR 0xBB, CHR 0xBF]]"

text \<open>
  \<open>strip_one ps str\<close> takes the first of the byte sequences \<open>ps\<close> that starts \<open>str\<close> off
  its front; \<open>strip_all\<close> does so until none of them starts what is left.
\<close>

fun strip_one :: "string list \<Rightarrow> string \<Rightarrow> string option" where
  "strip_one [] str = None"
| "strip_one (p # ps) str =
     (if p \<noteq> [] \<and> take (length p) str = p then Some (drop (length p) str)
      else strip_one ps str)"

function strip_all :: "string list \<Rightarrow> string \<Rightarrow> string" where
  "strip_all ps str = (case strip_one ps str of Some rest \<Rightarrow> strip_all ps rest | None \<Rightarrow> str)"
  by pat_completeness auto
termination
proof (relation "measure (\<lambda>(ps, str). length str)")
  show "wf (measure (\<lambda>(ps, str). length str))"
    by simp
next
  fix ps :: "string list" and str rest :: string
  assume found: "strip_one ps str = Some rest"
  have "length rest < length str"
    using found
  proof (induction ps)
    case Nil
    then show ?case by simp
  next
    case (Cons p ps)
    show ?case
    proof (cases "p \<noteq> [] \<and> take (length p) str = p")
      case True
      then have "rest = drop (length p) str" and "length p \<le> length str" and "0 < length p"
        using Cons.prems by (auto simp: min_def split: if_splits dest: arg_cong [where f = length])
      then show ?thesis by (cases p) simp_all
    next
      case False
      then show ?thesis using Cons by auto
    qed
  qed
  then show "((ps, rest), (ps, str)) \<in> measure (\<lambda>(ps, str). length str)"
    by simp
qed

definition trim :: "string \<Rightarrow> string" where
  "trim str = rev (strip_all (map rev WhiteSpace) (rev (strip_all WhiteSpace str)))"

definition startsWith :: "string \<Rightarrow> string \<Rightarrow> bool" where
  "startsWith str p = (take (length p) str = p)"

definition digit :: "nat \<Rightarrow> char" where
  "digit d = char_of (48 + d)"

function decimal :: "nat \<Rightarrow> string" where
  "decimal n = (if n < 10 then [digit n] else decimal (n div 10) @ [digit (n mod 10)])"
  by pat_completeness auto
termination
  by (relation "measure (\<lambda>n. n)") auto

fun truthy :: "string option \<Rightarrow> bool" where
  "truthy None = False"
| "truthy (Some str) = (str \<noteq> [])"

section \<open>The client: App and Notes\<close>

text \<open>
  The repository holds each of the two components twice, with and without the offline
  support. The model follows the versions that use \<^verbatim>\<open>offlineStorage.js\<close>: the App of
  \<^verbatim>\<open>frontend/src/App.jsx\<close> and the Notes component that imports \<^verbatim>\<open>notesStorage\<close> and
  \<^verbatim>\<open>syncQueue\<close>.

  The record below is the state of the two components and the store they share.
  \<open>serverStatus\<close>, \<open>session\<close>, \<open>selectedDate\<close>, \<open>notes'\<close> (the source's \<^verbatim>\<open>notes\<close>) and
  \<open>isOfflineMode\<close> are the state of App; \<open>wasOffline\<close> is the variable of its health
  effect; \<open>content'\<close> (the source's \<^verbatim>\<open>content\<close>), \<open>currentNoteId\<close>, \<open>isSaving\<close> and
  \<open>isDeleting\<close> are the state of Notes. The state that no handler modelled here reads or
  writes is left out (\<^verbatim>\<open>stage\<close> and \<^verbatim>\<open>notice\<close> of App, \<^verbatim>\<open>isLoading\<close> of Notes).
  App renders Notes with \<^verbatim>\<open>selectedDate\<close> and \<^verbatim>\<open>isOfflineMode\<close> of its own state,
  \<^verbatim>\<open>token={session.token}\<close> and \<^verbatim>\<open>userId={session.user.id}\<close>, and only while a session
  exists; the handlers of Notes take that session as an argument.
\<close>

datatype server_status = Checking | Online | Offline

record client =
  storage :: localStorage
  session :: "Session option"
  serverStatus :: server_status
  selectedDate :: "string option"
  notes' :: "Note list"
  isOfflineMode :: bool
  wasOffline :: bool
  content' :: string
  currentNoteId :: "string option"
  isSaving :: bool
  isDeleting :: bool

text \<open>
  The callback App passes to Notes:
  \<^verbatim>\<open>(updatedNotes) => { setNotes(updatedNotes); notesStorage.save(session.user.id, updatedNotes) }\<close>.
\<close>

definition onNoteSaved :: "Session \<Rightarrow> Note list \<Rightarrow> client \<Rightarrow> client" where
  "onNoteSaved sess updatedNotes c =
     c\<lparr>notes' := updatedNotes,
       storage := snd (notesStorage_save (storage c) (user_id (user sess)) updatedNotes)\<rparr>"

subsection \<open>handleSave\<close>

text \<open>\<^verbatim>\<open>findIndex\<close>, with \<open>None\<close> for \<^verbatim>\<open>-1\<close>.\<close>

fun findIndex :: "('a \<Rightarrow> bool) \<Rightarrow> 'a list \<Rightarrow> nat option" where
  "findIndex P [] = None"
| "findIndex P (x # xs) = (if P x then Some 0 else map_option Suc (findIndex P xs))"

definition save_request :: "string \<Rightarrow> string \<Rightarrow> noteData \<Rightarrow> request" where
  "save_request apiBaseUrl tok noteData =
     \<lparr>req_url = apiBaseUrl @ ''/api/notes'',
      req_method = ''POST'',
      req_headers = [(''Content-Type'', ''application/json''),
                     (''Authorization'', ''Bearer '' @ tok)],
      req_body = Some noteData\<rparr>"

text \<open>
  The second half of \<^verbatim>\<open>handleSave\<close>, under the comment ``Offline mode: Save to localStorage
  and queue for sync''. \<open>now\<close> is \<^verbatim>\<open>Date.now()\<close> and \<open>isoTime\<close> is
  \<^verbatim>\<open>new Date().toISOString()\<close>; the clock does not advance within the handler.
\<close>

definition save_locally :: "nat \<Rightarrow> string \<Rightarrow> Session \<Rightarrow> string \<Rightarrow> noteData \<Rightarrow> client \<Rightarrow> client" where
  "save_locally now isoTime sess sd noteData c =
     (let uid = user_id (user sess);
          cachedNotes = notesStorage_load (storage c) uid;
          existingIndex = findIndex (\<lambda>n. date n = sd) cachedNotes;
          noteToSave =
            \<lparr>note_id = (if truthy (currentNoteId c) then the (currentNoteId c)
                        else ''temp_'' @ decimal now),
             userId = uid,
             date = sd,
             content = trim (content' c),
             createdAt = (case existingIndex of Some k \<Rightarrow> createdAt (cachedNotes ! k) | None \<Rightarrow> isoTime),
             updatedAt = isoTime\<rparr>;
          cachedNotes = (case existingIndex of
                           Some k \<Rightarrow> cachedNotes[k := noteToSave]
                         | None \<Rightarrow> cachedNotes @ [noteToSave]);
          c = c\<lparr>storage := snd (notesStorage_save (storage c) uid cachedNotes)\<rparr>;
          c = c\<lparr>currentNoteId := Some (note_id noteToSave)\<rparr>;
          c = c\<lparr>storage := snd (syncQueue_add now (storage c)
                  \<lparr>http_method = ''POST'', url = ''/api/notes'', headers = [],
                   body = Some noteData, timestamp = 0, retries = 0\<rparr>)\<rparr>;
          c = onNoteSaved sess cachedNotes c
      in c\<lparr>isSaving := False\<rparr>)"

definition handleSave :: "'w fetch \<Rightarrow> string \<Rightarrow> nat \<Rightarrow> string \<Rightarrow> Session \<Rightarrow> client \<times> 'w \<Rightarrow> client \<times> 'w" where
  "handleSave fetch apiBaseUrl now isoTime sess = (\<lambda>(c, w).
     if \<not> truthy (selectedDate c) then (c, w)
     else
       let sd = the (selectedDate c);
           c = c\<lparr>isSaving := True\<rparr>;
           noteData = \<lparr>nd_date = sd, nd_content = trim (content' c)\<rparr>
       in if \<not> isOfflineMode c then
            (let (r, w') = fetch w (save_request apiBaseUrl (token sess) noteData)
             in case r of
                  Resolved resp \<Rightarrow>
                    (if ok resp then
                       (case json resp of
                          Some updatedNotes \<Rightarrow>
                            (let c = (case find (\<lambda>n. date n = sd) updatedNotes of
                                        Some savedNote \<Rightarrow> c\<lparr>currentNoteId := Some (note_id savedNote)\<rparr>
                                      | None \<Rightarrow> c);
                                 c = onNoteSaved sess updatedNotes c
                             in (c\<lparr>isSaving := False\<rparr>, w'))
                        | None \<Rightarrow> (save_locally now isoTime sess sd noteData c, w'))
                     else (save_locally now isoTime sess sd noteData c, w'))
                | _ \<Rightarrow> (save_locally now isoTime sess sd noteData c, w'))
          else (save_locally now isoTime sess sd noteData c, w))"

subsection \<open>handleDelete\<close>

definition delete_request :: "string \<Rightarrow> string \<Rightarrow> string \<Rightarrow> request" where
  "delete_request apiBaseUrl tok cid =
     \<lparr>req_url = apiBaseUrl @ ''/api/notes/'' @ cid,
      req_method = ''DELETE'',
      req_headers = [(''Authorization'', ''Bearer '' @ tok)],
      req_body = None\<rparr>"

text \<open>
  The second half of \<^verbatim>\<open>handleDelete\<close>, under the comment ``Offline mode: Delete from
  localStorage and queue for sync''.
\<close>

definition delete_locally :: "nat \<Rightarrow> Session \<Rightarrow> string \<Rightarrow> client \<Rightarrow> client" where
  "delete_locally now sess cid c =
     (let uid = user_id (user sess);
          cachedNotes = notesStorage_load (storage c) uid;
          filteredNotes = filter (\<lambda>n. note_id n \<noteq> cid) cachedNotes;
          c = c\<lparr>storage := snd (notesStorage_save (storage c) uid filteredNotes)\<rparr>;
          c = (if \<not> startsWith cid ''temp_'' then
                 c\<lparr>storage := snd (syncQueue_add now (storage c)
                     \<lparr>http_method = ''DELETE'', url = ''/api/notes/'' @ cid, headers = [],
                      body = None, timestamp = 0, retries = 0\<rparr>)\<rparr>
               else c);
          c = c\<lparr>content' := [], currentNoteId := None\<rparr>;
          c = onNoteSaved sess filteredNotes c
      in c\<lparr>isDeleting := False\<rparr>)"

text \<open>\<open>confirmed\<close> is the answer to the \<^verbatim>\<open>confirm(...)\<close> dialog.\<close>

definition handleDelete :: "'w fetch \<Rightarrow> string \<Rightarrow> nat \<Rightarrow> Session \<Rightarrow> bool \<Rightarrow> client \<times> 'w \<Rightarrow> client \<times> 'w" where
  "handleDelete fetch apiBaseUrl now sess confirmed = (\<lambda>(c, w).
     if \<not> truthy (selectedDate c) \<or> \<not> truthy (currentNoteId c) then (c, w)
     else if \<not> confirmed then (c, w)
     else
       let cid = the (currentNoteId c);
           c = c\<lparr>isDeleting := True\<rparr>
       in if \<not> isOfflineMode c \<and> \<not> startsWith cid ''temp_'' then
            (let (r, w') = fetch w (delete_request apiBaseUrl (token sess) cid)
             in case r of
                  Resolved resp \<Rightarrow>
                    (if ok resp then
                       (case json resp of
                          Some updatedNotes \<Rightarrow>
                            (let c = c\<lparr>content' := [], currentNoteId := None\<rparr>;
                                 c = onNoteSaved sess updatedNotes c
                             in (c\<lparr>isDeleting := False\<rparr>, w'))
                        | None \<Rightarrow> (delete_locally now sess cid c, w'))
                     else (delete_locally now sess cid c, w'))
                | _ \<Rightarrow> (delete_locally now sess cid c, w'))
          else (delete_locally now sess cid c, w))"


subsection \<open>checkHealth\<close>

definition health_request :: "string \<Rightarrow> request" where
  "health_request apiBaseUrl =
     \<lparr>req_url = apiBaseUrl @ ''/health'',
      req_method = ''GET'',
      req_headers = [(''Content-Type'', ''application/json'')],
      req_body = None\<rparr>"

definition notes_request :: "string \<Rightarrow> string \<Rightarrow> request" where
  "notes_request apiBaseUrl tok =
     \<lparr>req_url = apiBaseUrl @ ''/api/notes'',
      req_method = ''GET'',
      req_headers = [(''Authorization'', ''Bearer '' @ tok)],
      req_body = None\<rparr>"

text \<open>
  The \<^verbatim>\<open>catch\<close> of \<^verbatim>\<open>checkHealth\<close>: \<open>aborted\<close> is \<^verbatim>\<open>error.name === 'AbortError'\<close>.
\<close>

definition health_catch :: "bool \<Rightarrow> client \<Rightarrow> client" where
  "health_catch aborted c =
     (if \<not> aborted then c\<lparr>serverStatus := Offline, isOfflineMode := True, wasOffline := True\<rparr>
      else c)"

text \<open>
  The reload of the notes after the queue has been replayed, with its own \<^verbatim>\<open>try\<close>.
\<close>

definition reload_notes :: "'w fetch \<Rightarrow> string \<Rightarrow> Session \<Rightarrow> client \<times> 'w \<Rightarrow> client \<times> 'w" where
  "reload_notes fetch apiBaseUrl sess = (\<lambda>(c, w).
     let (r, w') = fetch w (notes_request apiBaseUrl (token sess))
     in case r of
          Resolved resp \<Rightarrow>
            (if ok resp then
               (case json resp of
                  Some serverNotes \<Rightarrow>
                    (c\<lparr>notes' := serverNotes,
                       storage := snd (notesStorage_save (storage c) (user_id (user sess)) serverNotes)\<rparr>, w')
                | None \<Rightarrow> (c, w'))
             else (c, w'))
        | _ \<Rightarrow> (c, w'))"

text \<open>
  One run of \<^verbatim>\<open>checkHealth\<close>. For the health response only whether \<^verbatim>\<open>response.json()\<close>
  resolves matters. The session is the one the effect closed over.
\<close>

definition checkHealth :: "'w fetch \<Rightarrow> string \<Rightarrow> client \<times> 'w \<Rightarrow> client \<times> 'w" where
  "checkHealth fetch apiBaseUrl = (\<lambda>(c, w).
     let c = c\<lparr>serverStatus := Checking\<rparr>;
         (r, w') = fetch w (health_request apiBaseUrl)
     in case r of
          Resolved resp \<Rightarrow>
            (if \<not> ok resp then (health_catch False c, w')
             else
               (case json resp of
                  None \<Rightarrow> (health_catch False c, w')
                | Some _ \<Rightarrow>
                    (let c = c\<lparr>serverStatus := Online, isOfflineMode := False\<rparr>;
                         (c, w') =
                           (case session c of
                              Some sess \<Rightarrow>
                                (if wasOffline c \<and> token sess \<noteq> [] then
                                   (let (s, w') = retryFailedRequests fetch apiBaseUrl (token sess) (storage c, w')
                                    in reload_notes fetch apiBaseUrl sess (c\<lparr>storage := s\<rparr>, w'))
                                 else (c, w'))
                            | None \<Rightarrow> (c, w'))
                     in (c\<lparr>wasOffline := False\<rparr>, w'))))
        | TypeError \<Rightarrow> (health_catch False c, w')
        | AbortError \<Rightarrow> (health_catch True c, w'))"

subsection \<open>Log out\<close>

text \<open>
  The click handler of the ``Log out'' button. \<^verbatim>\<open>session?.user?.id\<close> is \<^verbatim>\<open>undefined\<close> without
  a session, and the key is then built from the text \<^verbatim>\<open>undefined\<close>.
\<close>

definition logout :: "client \<Rightarrow> client" where
  "logout c =
     (let s = sessionStorage_clear (storage c);
          s = notesStorage_clear s (case session c of Some sess \<Rightarrow> user_id (user sess) | None \<Rightarrow> ''undefined'')
      in c\<lparr>storage := s, session := None, selectedDate := None, notes' := [], isOfflineMode := False\<rparr>)"

section \<open>The server's note endpoints\<close>

text \<open>
  The state of the server is the note array of \<^verbatim>\<open>notes.json\<close>, as \<^verbatim>\<open>readNotes\<close> returns it.
  Each handler runs behind \<^verbatim>\<open>authenticateToken\<close>: \<open>sub\<close> is \<^verbatim>\<open>req.user.sub\<close>, the id of the
  authenticated user. \<open>uuid\<close> is the value of \<^verbatim>\<open>randomUUID()\<close> and \<open>isoTime\<close> the server's
  \<^verbatim>\<open>new Date().toISOString()\<close>. A handler returns the status, the JSON array it answers with
  (\<open>None\<close> for a \<^verbatim>\<open>{message}\<close> body) and the new state. A missing field of the body
  is falsy like the empty string. The handlers run one request at a time, and the file is
  read and written without error (the \<^verbatim>\<open>catch\<close> that answers 500 is not entered).
\<close>

text \<open>
  \<^verbatim>\<open>notes.find(p)\<close> followed by assignments to the note found: the first note that
  satisfies \<open>p\<close> is changed in place.
\<close>

fun update_first :: "('a \<Rightarrow> bool) \<Rightarrow> ('a \<Rightarrow> 'a) \<Rightarrow> 'a list \<Rightarrow> 'a list" where
  "update_first p f [] = []"
| "update_first p f (x # xs) = (if p x then f x # xs else x # update_first p f xs)"

definition post_notes :: "string \<Rightarrow> noteData \<Rightarrow> string \<Rightarrow> string \<Rightarrow> Note list \<Rightarrow> nat \<times> Note list option \<times> Note list" where
  "post_notes sub reqBody uuid isoTime notes =
     (if nd_date reqBody = [] \<or> nd_content reqBody = [] \<or> trim (nd_content reqBody) = [] then
        (400, None, notes)
      else
        let existingNote = find (\<lambda>n. userId n = sub \<and> date n = nd_date reqBody) notes;
            notes =
              (case existingNote of
                 Some _ \<Rightarrow>
                   update_first (\<lambda>n. userId n = sub \<and> date n = nd_date reqBody)
                     (\<lambda>n. n\<lparr>content := trim (nd_content reqBody), updatedAt := isoTime\<rparr>) notes
               | None \<Rightarrow>
                   notes @ [\<lparr>note_id = uuid, userId = sub, date = nd_date reqBody,
                             content = trim (nd_content reqBody),
                             createdAt = isoTime, updatedAt = isoTime\<rparr>]);
            userNotes = filter (\<lambda>n. userId n = sub) notes
        in (201, Some userNotes, notes))"

definition put_notes :: "string \<Rightarrow> string \<Rightarrow> string \<Rightarrow> string \<Rightarrow> Note list \<Rightarrow> nat \<times> Note list option \<times> Note list" where
  "put_notes sub nid newContent isoTime notes =
     (if newContent = [] \<or> trim newContent = [] then (400, None, notes)
      else
        case find (\<lambda>n. note_id n = nid \<and> userId n = sub) notes of
          None \<Rightarrow> (404, None, notes)
        | Some _ \<Rightarrow>
            (let notes = update_first (\<lambda>n. note_id n = nid \<and> userId n = sub)
                           (\<lambda>n. n\<lparr>content := trim newContent, updatedAt := isoTime\<rparr>) notes;
                 userNotes = filter (\<lambda>n. userId n = sub) notes
             in (200, Some userNotes, notes)))"

definition delete_notes :: "string \<Rightarrow> string \<Rightarrow> Note list \<Rightarrow> nat \<times> Note list option \<times> Note list" where
  "delete_notes sub nid notes =
     (let filteredNotes = filter (\<lambda>n. \<not> (note_id n = nid \<and> userId n = sub)) notes
      in if length notes = length filteredNotes then (404, None, notes)
         else
           let userNotes = filter (\<lambda>n. userId n = sub) filteredNotes
           in (200, Some userNotes, filteredNotes))"

text \<open>A request to one of the three endpoints, and a sequence of them run on the store.\<close>

datatype api_request =
    POST_notes string noteData string string
  | PUT_notes string string string string
  | DELETE_notes string string

fun handle_request :: "api_request \<Rightarrow> Note list \<Rightarrow> nat \<times> Note list option \<times> Note list" where
  "handle_request (POST_notes sub reqBody uuid isoTime) notes = post_notes sub reqBody uuid isoTime notes"
| "handle_request (PUT_notes sub nid newContent isoTime) notes = put_notes sub nid newContent isoTime notes"
| "handle_request (DELETE_notes sub nid) notes = delete_notes sub nid notes"

fun run_requests :: "api_request list \<Rightarrow> Note list \<Rightarrow> Note list" where
  "run_requests [] notes = notes"
| "run_requests (r # rs) notes = run_requests rs (snd (snd (handle_request r notes)))"

section \<open>Vocabulary of the properties\<close>

subsection \<open>A pass of the queue, seen from the network\<close>

text \<open>
  A pass replays the operation at index \<open>i\<close> in the network state that the replays of the
  operations at the indices above \<open>i\<close> have left. \<open>world_after \<dots> m\<close> is the network once the
  operations at the indices \<open>m\<close> and above have been replayed; \<open>replay_result \<dots> i\<close> is what
  \<^verbatim>\<open>fetch\<close> answers for the operation at index \<open>i\<close>; \<open>dropped \<dots> i\<close> holds when that answer is
  an ok response, or when the incremented retry count of the operation is above 5.
\<close>

definition replay_step :: "'w fetch \<Rightarrow> string \<Rightarrow> string \<Rightarrow> 'w \<Rightarrow> operation \<Rightarrow> 'w" where
  "replay_step fetch apiBaseUrl tok w operation =
     snd (fetch w (replay_request apiBaseUrl tok operation))"

definition world_after :: "'w fetch \<Rightarrow> string \<Rightarrow> string \<Rightarrow> operation list \<Rightarrow> 'w \<Rightarrow> nat \<Rightarrow> 'w" where
  "world_after fetch apiBaseUrl tok queue w m =
     foldl (replay_step fetch apiBaseUrl tok) w (rev (drop m queue))"

definition replay_result :: "'w fetch \<Rightarrow> string \<Rightarrow> string \<Rightarrow> operation list \<Rightarrow> 'w \<Rightarrow> nat \<Rightarrow> fetch_result" where
  "replay_result fetch apiBaseUrl tok queue w i =
     fst (fetch (world_after fetch apiBaseUrl tok queue w (Suc i))
            (replay_request apiBaseUrl tok (queue ! i)))"

fun replay_ok :: "fetch_result \<Rightarrow> bool" where
  "replay_ok (Resolved resp) = ok resp"
| "replay_ok TypeError = False"
| "replay_ok AbortError = False"

definition dropped :: "'w fetch \<Rightarrow> string \<Rightarrow> string \<Rightarrow> operation list \<Rightarrow> 'w \<Rightarrow> nat \<Rightarrow> bool" where
  "dropped fetch apiBaseUrl tok queue w i =
     (replay_ok (replay_result fetch apiBaseUrl tok queue w i) \<or> retries (queue ! i) + 1 > 5)"

text \<open>
  A network that records the requests it receives, in order, and answers each from the
  requests received before it and the request itself.
\<close>

definition logging :: "(request list \<Rightarrow> request \<Rightarrow> fetch_result) \<Rightarrow> request list fetch" where
  "logging server = (\<lambda>log req. (server log req, log @ [req]))"

definition unreachable :: "request list \<Rightarrow> request \<Rightarrow> fetch_result" where
  "unreachable log req = TypeError"

definition rejecting :: "request list \<Rightarrow> request \<Rightarrow> fetch_result" where
  "rejecting log req = Resolved \<lparr>status = 400, json = None\<rparr>"

definition aborting :: "request list \<Rightarrow> request \<Rightarrow> fetch_result" where
  "aborting log req = AbortError"

text \<open>A network that answers the requests with the answers of a list, one after the other.\<close>

definition scripted :: "fetch_result list fetch" where
  "scripted rs req = (case rs of [] \<Rightarrow> (TypeError, []) | r # rs' \<Rightarrow> (r, rs'))"

subsection \<open>Concrete inputs\<close>

definition delete_a :: operation where
  "delete_a = \<lparr>http_method = ''DELETE'', url = ''/api/notes/a'', headers = [], body = None,
               timestamp = 0, retries = 0\<rparr>"

definition delete_b :: operation where
  "delete_b = \<lparr>http_method = ''DELETE'', url = ''/api/notes/b'', headers = [], body = None,
               timestamp = 0, retries = 0\<rparr>"

text \<open>The store after \<^verbatim>\<open>syncQueue.add\<close> of the first delete, and then of the second.\<close>

definition queued_a :: localStorage where
  "queued_a = snd (syncQueue_add 1 Map.empty delete_a)"

definition queued_a_b :: localStorage where
  "queued_a_b = snd (syncQueue_add 2 queued_a delete_b)"

definition delete_c :: operation where
  "delete_c = \<lparr>http_method = ''DELETE'', url = ''/api/notes/c'', headers = [], body = None,
               timestamp = 0, retries = 0\<rparr>"

definition queued_a_b_c :: localStorage where
  "queued_a_b_c = snd (syncQueue_add 3 queued_a_b delete_c)"

definition ok_reply :: fetch_result where
  "ok_reply = Resolved \<lparr>status = 200, json = Some []\<rparr>"

text \<open>
  Two passes that overlap. The first pass starts, its replay of c fails, and its replay of
  b stays unanswered for a while. Meanwhile the second pass starts and runs to its end: c
  fails, b fails, a is answered ok. Then the first pass gets an ok answer for b, and its
  replay of a fails.
\<close>

definition overlapping :: "event list" where
  "overlapping =
     [Start 1, Settle 1 TypeError,
      Start 2, Settle 2 TypeError, Settle 2 TypeError, Settle 2 ok_reply,
      Settle 1 ok_reply, Settle 1 TypeError]"

definition alice :: Session where
  "alice = \<lparr>token = ''jwt'', user = \<lparr>user_id = ''u1'', username = ''alice''\<rparr>\<rparr>"

text \<open>
  Alice, logged in and online, has selected a day and typed a note; nothing is cached or
  queued.
\<close>

definition client0 :: client where
  "client0 =
     \<lparr>storage = Map.empty, session = Some alice, serverStatus = Online,
      selectedDate = Some ''2024-06-01'', notes' = [], isOfflineMode = False, wasOffline = False,
      content' = ''buy milk'', currentNoteId = None, isSaving = False, isDeleting = False\<rparr>"

definition temp_note :: Note where
  "temp_note = \<lparr>note_id = ''temp_17'', userId = ''u1'', date = ''2024-06-01'', content = ''buy milk'',
                createdAt = ''t0'', updatedAt = ''t0''\<rparr>"

definition server_note :: Note where
  "server_note = \<lparr>note_id = ''n1'', userId = ''u1'', date = ''2024-06-02'', content = ''call home'',
                  createdAt = ''t0'', updatedAt = ''t0''\<rparr>"

text \<open>Alice's cache holds a note saved offline and a note of the server; the first is selected.\<close>

definition client_temp :: client where
  "client_temp =
     client0\<lparr>storage := snd (notesStorage_save Map.empty ''u1'' [temp_note, server_note]),
             notes' := [temp_note, server_note], currentNoteId := Some ''temp_17''\<rparr>"

text \<open>The same, with the note of the server selected.\<close>

definition client_real :: client where
  "client_real = client_temp\<lparr>selectedDate := Some ''2024-06-02'', currentNoteId := Some ''n1''\<rparr>"

text \<open>Alice with one delete waiting in the queue.\<close>

definition client_queued :: client where
  "client_queued = client0\<lparr>storage := queued_a\<rparr>"

definition milk :: noteData where
  "milk = \<lparr>nd_date = ''2024-06-01'', nd_content = ''buy milk''\<rparr>"

subsection \<open>Server-side notions\<close>

text \<open>At most one note for a user and a day: the pairs of \<open>userId\<close> and \<open>date\<close> are distinct.\<close>

definition one_note_per_day :: "Note list \<Rightarrow> bool" where
  "one_note_per_day notes = distinct (map (\<lambda>n. (userId n, date n)) notes)"

text \<open>The bodies that \<^verbatim>\<open>POST /api/notes\<close> answers with the status 400.\<close>

definition rejected_body :: "noteData \<Rightarrow> bool" where
  "rejected_body reqBody =
     (nd_date reqBody = [] \<or> nd_content reqBody = [] \<or> trim (nd_content reqBody) = [])"

text \<open>A note without the time of its last update.\<close>

definition erase_updatedAt :: "Note \<Rightarrow> Note" where
  "erase_updatedAt n = n\<lparr>updatedAt := []\<rparr>"

text \<open>The user whose cache the logout handler clears.\<close>

definition logout_uid :: "client \<Rightarrow> string" where
  "logout_uid c = (case session c of Some sess \<Rightarrow> user_id (user sess) | None \<Rightarrow> ''undefined'')"

section \<open>The keys of the store\<close>

text \<open>
  The three kinds of key never coincide: the key of a user's notes starts with
  \<^verbatim>\<open>wellwork_n\<close>, the key of the session with \<^verbatim>\<open>wellwork_se\<close> and the key of the queue with
  \<^verbatim>\<open>wellwork_sy\<close>.
\<close>

lemma notes_key_not_queue_key:
  "getUserKey uid ''notes'' \<noteq> STORAGE_PREFIX @ ''sync_queue''"
  by (simp add: getUserKey_def STORAGE_PREFIX_def)

lemma notes_key_not_session_key:
  "getUserKey uid ''notes'' \<noteq> STORAGE_PREFIX @ ''session''"
  by (simp add: getUserKey_def STORAGE_PREFIX_def)

lemma session_key_not_queue_key:
  "STORAGE_PREFIX @ ''session'' \<noteq> STORAGE_PREFIX @ ''sync_queue''"
  by (simp add: STORAGE_PREFIX_def)

text \<open>What each operation on the store leaves for the readers of the other entries.\<close>

lemma getAll_setItem:
  "syncQueue_getAll (setItem s (STORAGE_PREFIX @ ''sync_queue'') (QueueJSON q)) = q"
  by (simp add: syncQueue_getAll_def setItem_def getItem_def)

lemma getAll_remove:
  "syncQueue_getAll (snd (syncQueue_remove s i)) = splice1 i (syncQueue_getAll s)"
  by (simp add: syncQueue_remove_def Let_def getAll_setItem)

lemma getAll_add:
  "syncQueue_getAll (snd (syncQueue_add now s operation)) =
     syncQueue_getAll s @ [operation\<lparr>timestamp := now, retries := 0\<rparr>]"
  by (simp add: syncQueue_add_def Let_def getAll_setItem)

lemma load_save_same:
  "notesStorage_load (snd (notesStorage_save s uid ns)) uid = ns"
  by (simp add: notesStorage_load_def notesStorage_save_def getItem_def setItem_def Let_def)

lemma getAll_notes_save:
  "syncQueue_getAll (snd (notesStorage_save s uid ns)) = syncQueue_getAll s"
  using notes_key_not_queue_key [of uid]
  by (auto simp: syncQueue_getAll_def notesStorage_save_def getItem_def setItem_def Let_def)

lemma load_queue_add:
  "notesStorage_load (snd (syncQueue_add now s operation)) uid = notesStorage_load s uid"
  using notes_key_not_queue_key [of uid]
  by (auto simp: notesStorage_load_def syncQueue_add_def getItem_def setItem_def Let_def)

lemma getAll_empty:
  "syncQueue_getAll Map.empty = []"
  by (simp add: syncQueue_getAll_def getItem_def)

lemma load_empty:
  "notesStorage_load Map.empty uid = []"
  by (simp add: notesStorage_load_def getItem_def)

lemma getAll_notes_clear:
  "syncQueue_getAll (notesStorage_clear s uid) = syncQueue_getAll s"
  using notes_key_not_queue_key [of uid]
  by (auto simp: syncQueue_getAll_def notesStorage_clear_def getItem_def removeItem_def)

lemma getAll_session_clear:
  "syncQueue_getAll (sessionStorage_clear s) = syncQueue_getAll s"
  using session_key_not_queue_key
  by (auto simp: syncQueue_getAll_def sessionStorage_clear_def getItem_def removeItem_def)

lemma load_notes_clear:
  "notesStorage_load (notesStorage_clear s uid) uid = []"
  by (simp add: notesStorage_load_def notesStorage_clear_def getItem_def removeItem_def)

lemma session_load_notes_clear:
  "sessionStorage_load (notesStorage_clear s uid) = sessionStorage_load s"
  using notes_key_not_session_key [of uid]
  by (auto simp: sessionStorage_load_def notesStorage_clear_def getItem_def removeItem_def)

lemma session_load_clear:
  "sessionStorage_load (sessionStorage_clear s) = None"
  by (simp add: sessionStorage_load_def sessionStorage_clear_def getItem_def removeItem_def)

lemmas store_simps =
  getAll_setItem getAll_remove getAll_add getAll_empty getAll_notes_save getAll_notes_clear
  getAll_session_clear load_save_same load_queue_add load_empty load_notes_clear
  session_load_notes_clear session_load_clear

section \<open>The pending-operation queue\<close>

lemma splice1_last:
  "m < length q \<Longrightarrow> splice1 m (take (Suc m) q @ rest) = take m q @ rest"
  by (simp add: splice1_def take_Suc_conv_app_nth)

lemma world_after_Suc:
  "m < length q \<Longrightarrow>
   world_after fetch api tok q w m =
     snd (fetch (world_after fetch api tok q w (Suc m)) (replay_request api tok (q ! m)))"
  by (simp add: world_after_def Cons_nth_drop_Suc [symmetric] replay_step_def)

text \<open>
  The invariant of the loop. When the iterations at the indices \<open>m\<close> and above are done, the
  stored queue is \<open>take m q\<close> followed by what those iterations have left (\<open>rest\<close>), and the
  array read at the start of the pass still agrees with \<open>q\<close> below \<open>m\<close>. The remaining
  iterations keep \<open>rest\<close> and leave, of the first \<open>m\<close> operations, those not dropped.
\<close>

lemma retry_loop_inv:
  "m \<le> length q \<Longrightarrow> length lq = length q \<Longrightarrow> take m lq = take m q \<Longrightarrow>
   syncQueue_getAll s = take m q @ rest \<Longrightarrow>
   retry_loop fetch api tok m (lq, s, world_after fetch api tok q w m) = (lq', s', w') \<Longrightarrow>
   syncQueue_getAll s' = map ((!) q) (filter (\<lambda>i. \<not> dropped fetch api tok q w i) [0..<m]) @ rest
     \<and> w' = world_after fetch api tok q w 0"
proof (induction m arbitrary: lq s rest)
  case 0
  then show ?case by simp
next
  case (Suc m)
  have m: "m < length q" using Suc.prems(1) by simp
  have lqm: "lq ! m = q ! m"
    using Suc.prems(2,3) m by (metis lessI nth_take)
  have tk: "take m lq = take m q"
    using Suc.prems(3) by (metis take_take min.absorb1 le_SucI order_refl)
  obtain r w1 where
    f: "fetch (world_after fetch api tok q w (Suc m)) (replay_request api tok (q ! m)) = (r, w1)"
    by (cases "fetch (world_after fetch api tok q w (Suc m)) (replay_request api tok (q ! m))")
  have w1: "w1 = world_after fetch api tok q w m"
    using world_after_Suc [OF m, of fetch api tok w] f by simp
  have r: "replay_result fetch api tok q w m = r"
    using f by (simp add: replay_result_def)
  show ?case
  proof (cases "replay_ok r")
    case True
    then obtain resp where rr: "r = Resolved resp" and okr: "ok resp"
      by (cases r) auto
    have step: "retry_loop fetch api tok m
        (lq, snd (syncQueue_remove s m), world_after fetch api tok q w m) = (lq', s', w')"
      using Suc.prems(5) f rr okr lqm w1 by simp
    have g: "syncQueue_getAll (snd (syncQueue_remove s m)) = take m q @ rest"
      using Suc.prems(4) m by (simp add: store_simps splice1_last)
    have d: "dropped fetch api tok q w m"
      using True r by (simp add: dropped_def)
    from Suc.IH [OF _ Suc.prems(2) tk g step] m d show ?thesis by simp
  next
    case False
    obtain lq1 s1 where fa: "failed_attempt m (lq, s) = (lq1, s1)"
      by (cases "failed_attempt m (lq, s)")
    have step: "retry_loop fetch api tok m (lq1, s1, world_after fetch api tok q w m) = (lq', s', w')"
      using Suc.prems(5) f False lqm w1 fa by (cases r) auto
    have len1: "length lq1 = length q" and tk1: "take m lq1 = take m q"
      using fa Suc.prems(2) tk by (auto simp: failed_attempt_def Let_def split: if_splits)
    show ?thesis
    proof (cases "retries (q ! m) + 1 > 5")
      case True
      have s1: "s1 = snd (syncQueue_remove s m)"
        using fa True lqm m Suc.prems(2) by (auto simp: failed_attempt_def Let_def split: if_splits)
      have g: "syncQueue_getAll s1 = take m q @ rest"
        using Suc.prems(4) m s1 by (simp add: store_simps splice1_last)
      have d: "dropped fetch api tok q w m"
        using True by (simp add: dropped_def)
      from Suc.IH [OF _ len1 tk1 g step] m d show ?thesis by simp
    next
      case few: False
      have s1: "s1 = s"
        using fa few lqm m Suc.prems(2) by (auto simp: failed_attempt_def Let_def split: if_splits)
      have g: "syncQueue_getAll s1 = take m q @ (q ! m # rest)"
        using Suc.prems(4) m s1 by (simp add: take_Suc_conv_app_nth)
      have d: "\<not> dropped fetch api tok q w m"
        using few False r by (simp add: dropped_def)
      from Suc.IH [OF _ len1 tk1 g step] m d show ?thesis by simp
    qed
  qed
qed

lemma retry_loop_result:
  assumes "retry_loop fetch api tok (length (syncQueue_getAll s)) (syncQueue_getAll s, s, w) = (lq', s', w')"
  shows "syncQueue_getAll s' =
           map ((!) (syncQueue_getAll s))
             (filter (\<lambda>i. \<not> dropped fetch api tok (syncQueue_getAll s) w i) [0..<length (syncQueue_getAll s)])
         \<and> w' = world_after fetch api tok (syncQueue_getAll s) w 0"
proof -
  have w: "world_after fetch api tok (syncQueue_getAll s) w (length (syncQueue_getAll s)) = w"
    by (simp add: world_after_def)
  have "syncQueue_getAll s' =
           map ((!) (syncQueue_getAll s))
             (filter (\<lambda>i. \<not> dropped fetch api tok (syncQueue_getAll s) w i) [0..<length (syncQueue_getAll s)]) @ []
        \<and> w' = world_after fetch api tok (syncQueue_getAll s) w 0"
    by (rule retry_loop_inv [where lq = "syncQueue_getAll s" and s = s]) (use assms w in simp_all)
  then show ?thesis by simp
qed

lemma retryFailedRequests_world:
  "snd (retryFailedRequests fetch api tok (s, w)) = world_after fetch api tok (syncQueue_getAll s) w 0"
proof (cases "syncQueue_getAll s = []")
  case True
  then show ?thesis by (simp add: retryFailedRequests_def world_after_def)
next
  case False
  obtain lq' s' w' where
    l: "retry_loop fetch api tok (length (syncQueue_getAll s)) (syncQueue_getAll s, s, w) = (lq', s', w')"
    by (cases "retry_loop fetch api tok (length (syncQueue_getAll s)) (syncQueue_getAll s, s, w)")
  show ?thesis
    using False l retry_loop_result [OF l]
    by (simp add: retryFailedRequests_def Let_def store_simps)
qed

lemma foldl_logging:
  "foldl (replay_step (logging server) api tok) log ops = log @ map (replay_request api tok) ops"
  by (induction ops arbitrary: log) (simp_all add: replay_step_def logging_def)

text \<open>
  A pass that nothing interrupts loses nothing that it should keep: after it, the stored
  queue holds, in their order and as they were stored, exactly the operations whose replay
  was not answered with an ok response and whose incremented retry count is not above 5.
\<close>

lemma uninterrupted_pass_drops_only_replayed_or_exhausted:
  "syncQueue_getAll (fst (retryFailedRequests fetch api tok (s, w))) =
     map ((!) (syncQueue_getAll s))
       (filter (\<lambda>i. \<not> dropped fetch api tok (syncQueue_getAll s) w i)
          [0..<length (syncQueue_getAll s)])"
proof (cases "syncQueue_getAll s = []")
  case True
  then show ?thesis by (simp add: retryFailedRequests_def)
next
  case False
  obtain lq' s' w' where
    l: "retry_loop fetch api tok (length (syncQueue_getAll s)) (syncQueue_getAll s, s, w) = (lq', s', w')"
    by (cases "retry_loop fetch api tok (length (syncQueue_getAll s)) (syncQueue_getAll s, s, w)")
  show ?thesis
    using False l retry_loop_result [OF l]
    by (simp add: retryFailedRequests_def Let_def store_simps)
qed

text \<open>
  The steps of a pass, run one after the other with nothing in between, are the pass as one
  function on the network that gives the same answers.
\<close>

lemma settle_all_is_retry_loop:
  "length rs = Suc i \<Longrightarrow>
   foldl (\<lambda>st r. pass_settle r st) (Awaiting lq (Suc i), s) rs =
     (Finished,
      setItem (fst (snd (retry_loop scripted api tok (Suc i) (lq, s, rs))))
        (STORAGE_PREFIX @ ''sync_queue'')
        (QueueJSON (syncQueue_getAll (fst (snd (retry_loop scripted api tok (Suc i) (lq, s, rs)))))))"
proof (induction i arbitrary: lq s rs)
  case 0
  then obtain r where rs: "rs = [r]"
    by (cases rs) auto
  show ?case
    by (cases r) (auto simp: rs scripted_def Let_def split: prod.splits)
next
  case (Suc i)
  then obtain r rs' where rs: "rs = r # rs'" and len: "length rs' = Suc i"
    by (cases rs) auto
  obtain lq1 s1 where fa: "failed_attempt (Suc i) (lq, s) = (lq1, s1)"
    by (cases "failed_attempt (Suc i) (lq, s)")
  show ?case
  proof (cases "replay_ok r")
    case True
    then obtain resp where r: "r = Resolved resp" and okr: "ok resp"
      by (cases r) auto
    show ?thesis
      using Suc.IH [OF len, of lq "snd (syncQueue_remove s (Suc i))"]
      by (simp add: rs r okr scripted_def)
  next
    case False
    then show ?thesis
      using Suc.IH [OF len, of lq1 s1] fa
      by (cases r) (simp_all add: rs scripted_def)
  qed
qed

lemma run_single_pass:
  "fst (snd (foldl step (ps, s, answers) (map (Settle k) rs))) =
     snd (foldl (\<lambda>st r. pass_settle r st) (ps k, s) rs)"
proof (induction rs arbitrary: ps s answers)
  case Nil
  then show ?case by simp
next
  case (Cons r rs)
  obtain p s' where st: "pass_settle r (ps k, s) = (p, s')"
    by (cases "pass_settle r (ps k, s)")
  show ?case
    by (simp add: st Cons.IH)
qed

lemma uninterrupted_steps_are_retryFailedRequests:
  assumes "length rs = length (syncQueue_getAll s)"
  shows "fst (snd (run_events (Start k # map (Settle k) rs) s)) =
           fst (retryFailedRequests scripted api tok (s, rs))"
proof (cases "syncQueue_getAll s")
  case Nil
  with assms show ?thesis
    by (simp add: run_events_def pass_start_def retryFailedRequests_def)
next
  case (Cons operation q)
  then obtain i where i: "length (syncQueue_getAll s) = Suc i"
    by simp
  have start: "pass_start s = Awaiting (syncQueue_getAll s) (Suc i)"
    using i by (auto simp: pass_start_def Let_def)
  have "fst (snd (run_events (Start k # map (Settle k) rs) s)) =
          snd (foldl (\<lambda>st r. pass_settle r st) (Awaiting (syncQueue_getAll s) (Suc i), s) rs)"
    using run_single_pass [of "(\<lambda>k. Finished)(k := pass_start s)" s "[]" k rs]
    by (simp add: run_events_def start)
  also have "\<dots> =
      setItem (fst (snd (retry_loop scripted api tok (Suc i) (syncQueue_getAll s, s, rs))))
        (STORAGE_PREFIX @ ''sync_queue'')
        (QueueJSON (syncQueue_getAll
           (fst (snd (retry_loop scripted api tok (Suc i) (syncQueue_getAll s, s, rs))))))"
    using assms i settle_all_is_retry_loop [of rs i "syncQueue_getAll s" s api tok]
    by (simp del: retry_loop.simps)
  also have "\<dots> = fst (retryFailedRequests scripted api tok (s, rs))"
  proof -
    have ne: "length (syncQueue_getAll s) \<noteq> 0"
      using i by simp
    show ?thesis
      unfolding retryFailedRequests_def Let_def i [symmetric]
      using ne by (simp split: prod.splits del: retry_loop.simps)
  qed
  finally show ?thesis .
qed

text \<open>
  C1 fails on the code. \<^verbatim>\<open>syncQueue.remove(i)\<close> takes the operation at index \<open>i\<close> of the queue
  as it is stored when the answer arrives, and \<open>i\<close> is an index of the array read when the
  pass started. With the deletes of a, b and c queued and two passes that overlap, the
  second pass removes a at index 0, and the first pass, answered ok for b, then removes what
  is at index 1: c. Both replays of c had failed and its retry count is 0, and it is gone
  from the queue; b, which was answered ok, stays in it.
\<close>

theorem overlapping_passes_lose_an_operation:
  "syncQueue_getAll queued_a_b_c =
     [delete_a\<lparr>timestamp := 1\<rparr>, delete_b\<lparr>timestamp := 2\<rparr>, delete_c\<lparr>timestamp := 3\<rparr>]
   \<and> syncQueue_getAll (fst (snd (run_events overlapping queued_a_b_c))) = [delete_b\<lparr>timestamp := 2\<rparr>]
   \<and> map (\<lambda>(k, operation, r). (k, map_option url operation, replay_ok r))
         (snd (snd (run_events overlapping queued_a_b_c)))
       = [(1, Some ''/api/notes/c'', False),
          (2, Some ''/api/notes/c'', False),
          (2, Some ''/api/notes/b'', False),
          (2, Some ''/api/notes/a'', True),
          (1, Some ''/api/notes/b'', True),
          (1, Some ''/api/notes/a'', False)]
   \<and> fst (run_events overlapping queued_a_b_c) 1 = Finished
   \<and> fst (run_events overlapping queued_a_b_c) 2 = Finished"
  by code_simp

text \<open>
  C2, as the code has it. A pass sends the requests in the reverse of the order of the
  queue, the operation enqueued last first: the loop counts down from the last index.
\<close>

theorem retryFailedRequests_replays_newest_first:
  "snd (retryFailedRequests (logging server) apiBaseUrl tok (s, log)) =
     log @ map (replay_request apiBaseUrl tok) (rev (syncQueue_getAll s))"
  by (simp add: retryFailedRequests_world world_after_def foldl_logging)

text \<open>
  C2, as stated, fails: with the delete of note a enqueued before the delete of note b, the
  first request of the pass is the delete of b.
\<close>

theorem retryFailedRequests_oldest_first_counterexample:
  "map req_url (snd (retryFailedRequests (logging unreachable) ''http://localhost:5000'' ''jwt''
       (queued_a_b, [])))
     = [''http://localhost:5000/api/notes/b'', ''http://localhost:5000/api/notes/a'']"
  by (simp add: retryFailedRequests_def queued_a_b_def queued_a_def syncQueue_add_def
      syncQueue_getAll_def getItem_def setItem_def STORAGE_PREFIX_def delete_a_def delete_b_def
      logging_def unreachable_def replay_request_def spread_def failed_attempt_def Let_def
      numeral_2_eq_2)

text \<open>
  C3 fails on the code. The retry count is incremented on the array read at the start of
  the pass only; the pass ends by reading the stored queue again and writing that back. A
  delete that fails six passes in a row is still queued, with the retry count 0 it was
  stored with, and a seventh pass replays it again.
\<close>

theorem six_failed_passes_keep_the_operation:
  "syncQueue_getAll (fst (((retryFailedRequests (logging unreachable) ''http://localhost:5000'' ''jwt'') ^^ 6)
       (queued_a, []))) = [delete_a\<lparr>timestamp := 1, retries := 0\<rparr>]
   \<and> length (snd (((retryFailedRequests (logging unreachable) ''http://localhost:5000'' ''jwt'') ^^ 7)
       (queued_a, []))) = 7"
  by code_simp

section \<open>The note cache\<close>


section \<open>Log out\<close>

text \<open>
  C9, as the code has it. The logout handler removes the session entry and the notes of the
  user from the store and resets the state of App; it does not touch the queue, which
  \<^verbatim>\<open>syncQueue.getAll\<close> returns as it was before. \<^verbatim>\<open>syncQueue.clear\<close> is defined and never
  called.
\<close>

theorem logout_keeps_the_queue:
  "syncQueue_getAll (storage (logout c)) = syncQueue_getAll (storage c)
   \<and> sessionStorage_load (storage (logout c)) = None
   \<and> notesStorage_load (storage (logout c)) (logout_uid c) = []
   \<and> session (logout c) = None \<and> notes' (logout c) = []"
  by (simp add: logout_def logout_uid_def Let_def store_simps)

text \<open>
  C9, as stated, fails: Alice logs out with one delete queued, and the delete is still in
  the queue afterwards.
\<close>

theorem logout_clears_queue_counterexample:
  "syncQueue_getAll (storage (logout client_queued)) = [delete_a\<lparr>timestamp := 1, retries := 0\<rparr>]
   \<and> syncQueue_getAll (syncQueue_clear (storage client_queued)) = []"
proof
  show "syncQueue_getAll (storage (logout client_queued)) = [delete_a\<lparr>timestamp := 1, retries := 0\<rparr>]"
    by (simp add: logout_def Let_def client_queued_def client0_def queued_a_def store_simps)
  show "syncQueue_getAll (syncQueue_clear (storage client_queued)) = []"
    by (simp add: syncQueue_clear_def syncQueue_getAll_def getItem_def removeItem_def)
qed

section \<open>The health check\<close>

text \<open>
  C8, as the code has it. When the health request is aborted, \<^verbatim>\<open>checkHealth\<close> records no
  offline transition: \<open>isOfflineMode\<close>, \<open>wasOffline\<close>, the notes and the store stay as they
  were. \<open>serverStatus\<close> does not go back to what it was: it stays at \<open>Checking\<close>, where the
  check put it before sending the request.
\<close>

theorem aborted_check_is_not_offline:
  "fst (fetch w (health_request apiBaseUrl)) = AbortError \<Longrightarrow>
   fst (checkHealth fetch apiBaseUrl (c, w)) = c\<lparr>serverStatus := Checking\<rparr>"
  by (cases "fetch w (health_request apiBaseUrl)")
     (simp add: checkHealth_def health_catch_def Let_def)

theorem aborted_check_is_not_offline_witness:
  "fst (logging aborting [] (health_request ''http://localhost:5000'')) = AbortError
   \<and> fst (checkHealth (logging aborting) ''http://localhost:5000'' (client0, []))
       = client0\<lparr>serverStatus := Checking\<rparr>"
proof -
  have h: "fst (logging aborting [] (health_request ''http://localhost:5000'')) = AbortError"
    by (simp add: logging_def aborting_def)
  show ?thesis
    using h aborted_check_is_not_offline
      [of "logging aborting" "[]" "''http://localhost:5000''" client0]
    by simp
qed

text \<open>
  C8, as stated, fails for \<open>serverStatus\<close>: Alice is online, a check starts and is
  aborted, and the status is left at \<open>Checking\<close>, not at \<open>Online\<close>.
\<close>

theorem aborted_check_status_counterexample:
  "serverStatus client0 = Online
   \<and> serverStatus (fst (checkHealth (logging aborting) ''http://localhost:5000'' (client0, []))) = Checking"
  by (simp add: checkHealth_def health_catch_def Let_def client0_def logging_def aborting_def)

section \<open>The server's note store\<close>

lemma update_first_map:
  "(\<And>x. k (f x) = k x) \<Longrightarrow> map k (update_first p f xs) = map k xs"
  by (induction xs) simp_all

lemma update_first_none:
  "find p xs = None \<Longrightarrow> update_first p f xs = xs"
  by (induction xs) (simp_all split: if_splits)

lemma update_first_twice:
  "(\<And>x. p (f x) = p x) \<Longrightarrow> update_first p g (update_first p f xs) = update_first p (g \<circ> f) xs"
  by (induction xs) simp_all

lemma find_update_first:
  "(\<And>x. p (f x) = p x) \<Longrightarrow> find p (update_first p f xs) = map_option f (find p xs)"
  by (induction xs) simp_all

lemma find_append_none:
  "find p xs = None \<Longrightarrow> find p (xs @ ys) = find p ys"
  by (induction xs) (auto split: if_splits)

lemma update_first_append_none:
  "find p xs = None \<Longrightarrow> update_first p f (xs @ ys) = xs @ update_first p f ys"
  by (induction xs) (auto split: if_splits)

lemma post_notes_invariant:
  assumes "one_note_per_day stored"
  shows "one_note_per_day (snd (snd (post_notes sub reqBody uuid isoTime stored)))"
proof (cases "find (\<lambda>n. userId n = sub \<and> date n = nd_date reqBody) stored")
  case None
  then have "(sub, nd_date reqBody) \<notin> (\<lambda>n. (userId n, date n)) ` set stored"
    by (auto simp: find_None_iff)
  with assms None show ?thesis
    by (simp add: post_notes_def one_note_per_day_def Let_def)
next
  case (Some a)
  with assms show ?thesis
    by (simp add: post_notes_def one_note_per_day_def Let_def update_first_map)
qed

lemma put_notes_invariant:
  assumes "one_note_per_day stored"
  shows "one_note_per_day (snd (snd (put_notes sub nid newContent isoTime stored)))"
  using assms
  by (simp add: put_notes_def one_note_per_day_def Let_def update_first_map split: option.splits)

lemma delete_notes_invariant:
  assumes "one_note_per_day stored"
  shows "one_note_per_day (snd (snd (delete_notes sub nid stored)))"
  using assms
  by (simp add: delete_notes_def one_note_per_day_def Let_def distinct_map_filter)

lemma handle_request_invariant:
  "one_note_per_day stored \<Longrightarrow> one_note_per_day (snd (snd (handle_request r stored)))"
  by (cases r) (simp_all add: post_notes_invariant put_notes_invariant delete_notes_invariant)

text \<open>
  C5. A store with at most one note for each user and day still has at most one after any
  sequence of requests to \<^verbatim>\<open>POST /api/stored\<close>, \<^verbatim>\<open>PUT /api/stored/:id\<close> and
  \<^verbatim>\<open>DELETE /api/stored/:id\<close>, by any users, with any bodies, ids and times.
\<close>

theorem note_endpoints_keep_one_note_per_day:
  "one_note_per_day stored \<Longrightarrow> one_note_per_day (run_requests rs stored)"
  by (induction rs arbitrary: stored) (simp_all add: handle_request_invariant)

theorem note_endpoints_keep_one_note_per_day_witness:
  "one_note_per_day []
   \<and> one_note_per_day (run_requests
        [POST_notes ''u1'' milk ''id1'' ''t1'',
         POST_notes ''u1'' milk ''id2'' ''t2'',
         POST_notes ''u2'' milk ''id3'' ''t3'',
         PUT_notes ''u1'' ''id1'' ''buy bread'' ''t4'',
         DELETE_notes ''u2'' ''id3''] [])"
proof -
  have h: "one_note_per_day []"
    by (simp add: one_note_per_day_def)
  show ?thesis
    using h note_endpoints_keep_one_note_per_day [OF h] by blast
qed

text \<open>
  C6, as the code has it. Posting the same date and content for the same user a second
  time leaves the stored notes as the first post left them, but for \<open>updatedAt\<close> of the
  note posted, which takes the time of the second post: the second post does nothing else
  than set \<open>updatedAt\<close> of the first note of that user and date, and the two stores are equal
  once \<open>updatedAt\<close> is erased, whatever the ids and the times of the two requests.
\<close>

theorem post_notes_twice_same_but_updatedAt:
  "snd (snd (post_notes sub reqBody uuid2 time2 (snd (snd (post_notes sub reqBody uuid1 time1 stored)))))
     = (if rejected_body reqBody then stored
        else update_first (\<lambda>n. userId n = sub \<and> date n = nd_date reqBody)
               (\<lambda>n. n\<lparr>updatedAt := time2\<rparr>)
               (snd (snd (post_notes sub reqBody uuid1 time1 stored))))
   \<and> map erase_updatedAt
         (snd (snd (post_notes sub reqBody uuid2 time2 (snd (snd (post_notes sub reqBody uuid1 time1 stored))))))
       = map erase_updatedAt (snd (snd (post_notes sub reqBody uuid1 time1 stored)))"
proof (cases "rejected_body reqBody")
  case True
  then show ?thesis by (simp add: post_notes_def rejected_body_def)
next
  case valid: False
  let ?p = "\<lambda>n. userId n = sub \<and> date n = nd_date reqBody"
  let ?f = "\<lambda>t n. n\<lparr>content := trim (nd_content reqBody), updatedAt := t\<rparr>"
  let ?touch = "\<lambda>n. n\<lparr>updatedAt := time2\<rparr>"
  let ?once = "snd (snd (post_notes sub reqBody uuid1 time1 stored))"
  let ?twice = "snd (snd (post_notes sub reqBody uuid2 time2 ?once))"
  have twice: "?twice = update_first ?p ?touch ?once"
  proof (cases "find ?p stored")
    case None
    let ?new = "\<lparr>note_id = uuid1, userId = sub, date = nd_date reqBody,
                  content = trim (nd_content reqBody), createdAt = time1, updatedAt = time1\<rparr>"
    have first: "?once = stored @ [?new]"
      using valid None by (simp add: post_notes_def rejected_body_def Let_def)
    have found: "find ?p (stored @ [?new]) = Some ?new"
      using None by (simp add: find_append_none)
    have upd: "update_first ?p (?f time2) (stored @ [?new]) = stored @ [?f time2 ?new]"
      using None by (simp add: update_first_append_none)
    have touch: "update_first ?p ?touch (stored @ [?new]) = stored @ [?touch ?new]"
      using None by (simp add: update_first_append_none)
    have "snd (snd (post_notes sub reqBody uuid2 time2 (stored @ [?new]))) = stored @ [?f time2 ?new]"
      using valid found upd by (simp add: post_notes_def rejected_body_def Let_def)
    with first touch show ?thesis by simp
  next
    case (Some a)
    have first: "?once = update_first ?p (?f time1) stored"
      using valid Some by (simp add: post_notes_def rejected_body_def Let_def)
    have found: "find ?p (update_first ?p (?f time1) stored) = Some (?f time1 a)"
      using Some by (simp add: find_update_first)
    have "snd (snd (post_notes sub reqBody uuid2 time2 (update_first ?p (?f time1) stored)))
            = update_first ?p (?f time2) (update_first ?p (?f time1) stored)"
      using valid found by (simp add: post_notes_def rejected_body_def Let_def)
    also have "\<dots> = update_first ?p (?f time2 \<circ> ?f time1) stored"
      by (rule update_first_twice) simp
    also have "?f time2 \<circ> ?f time1 = ?touch \<circ> ?f time1"
      by (simp add: fun_eq_iff)
    also have "update_first ?p (?touch \<circ> ?f time1) stored
                 = update_first ?p ?touch (update_first ?p (?f time1) stored)"
      by (rule update_first_twice [symmetric]) simp
    finally show ?thesis using first by simp
  qed
  have "map erase_updatedAt (update_first ?p ?touch ?once) = map erase_updatedAt ?once"
    by (rule update_first_map) (simp add: erase_updatedAt_def)
  with twice valid show ?thesis by simp
qed

text \<open>
  C6, as stated, fails: posted at the time t1 and again at the time t2, the note is stored
  with \<open>updatedAt\<close> t2, and posted once, with t1.
\<close>

theorem post_notes_twice_counterexample:
  "map updatedAt (snd (snd (post_notes ''u1'' milk ''id2'' ''t2''
       (snd (snd (post_notes ''u1'' milk ''id1'' ''t1'' [])))))) = [''t2'']
   \<and> map updatedAt (snd (snd (post_notes ''u1'' milk ''id1'' ''t1'' []))) = [''t1'']"
  by code_simp

section \<open>Saving and deleting a note\<close>

lemma find_update_at_index:
  "findIndex p xs = Some k \<Longrightarrow> p y \<Longrightarrow> find p (xs[k := y]) = Some y"
  by (induction xs arbitrary: k) (auto split: if_splits)

lemma find_append_at_none:
  "findIndex p xs = None \<Longrightarrow> p y \<Longrightarrow> find p (xs @ [y]) = Some y"
  by (induction xs) (auto split: if_splits)

text \<open>What the local halves of the two handlers do to the queue and to the cache.\<close>

lemma save_locally_queue:
  "syncQueue_getAll (storage (save_locally now isoTime sess sd noteData c)) =
     syncQueue_getAll (storage c) @
       [\<lparr>http_method = ''POST'', url = ''/api/notes'', headers = [], body = Some noteData,
         timestamp = now, retries = 0\<rparr>]"
  by (simp add: save_locally_def onNoteSaved_def Let_def store_simps)

lemma save_locally_cache:
  "map_option content (find (\<lambda>n. date n = sd)
       (notesStorage_load (storage (save_locally now isoTime sess sd noteData c)) (user_id (user sess))))
     = Some (trim (content' c))"
  by (cases "findIndex (\<lambda>n. date n = sd) (notesStorage_load (storage c) (user_id (user sess)))")
     (simp_all add: save_locally_def onNoteSaved_def Let_def store_simps find_update_at_index
       find_append_at_none)

lemma delete_locally_queue:
  "syncQueue_getAll (storage (delete_locally now sess cid c)) =
     (if startsWith cid ''temp_'' then syncQueue_getAll (storage c)
      else syncQueue_getAll (storage c) @
             [\<lparr>http_method = ''DELETE'', url = ''/api/notes/'' @ cid, headers = [], body = None,
               timestamp = now, retries = 0\<rparr>])"
  by (simp add: delete_locally_def onNoteSaved_def Let_def store_simps)

lemma delete_locally_cache:
  "notesStorage_load (storage (delete_locally now sess cid c)) (user_id (user sess)) =
     filter (\<lambda>n. note_id n \<noteq> cid) (notesStorage_load (storage c) (user_id (user sess)))"
  by (simp add: delete_locally_def onNoteSaved_def Let_def store_simps)

text \<open>A request that the server answers with a status outside 200 to 299 ends in the local half.\<close>

lemma handleSave_rejected:
  assumes "truthy (selectedDate c)" and "\<not> isOfflineMode c"
    and "fetch w (save_request apiBaseUrl (token sess)
           \<lparr>nd_date = the (selectedDate c), nd_content = trim (content' c)\<rparr>) = (Resolved resp, w1)"
    and "\<not> ok resp"
  shows "handleSave fetch apiBaseUrl now isoTime sess (c, w) =
           (save_locally now isoTime sess (the (selectedDate c))
              \<lparr>nd_date = the (selectedDate c), nd_content = trim (content' c)\<rparr>
              (c\<lparr>isSaving := True\<rparr>), w1)"
  using assms by (simp add: handleSave_def Let_def)

lemma handleDelete_rejected:
  assumes "truthy (selectedDate c)" and "currentNoteId c = Some cid" and "cid \<noteq> []"
    and "\<not> startsWith cid ''temp_''" and "\<not> isOfflineMode c"
    and "fetch w (delete_request apiBaseUrl (token sess) cid) = (Resolved resp, w1)"
    and "\<not> ok resp"
  shows "handleDelete fetch apiBaseUrl now sess True (c, w) =
           (delete_locally now sess cid (c\<lparr>isDeleting := True\<rparr>), w1)"
  using assms by (simp add: handleDelete_def Let_def)

text \<open>
  C4, as the code has it. A save or a delete that reaches the server and is answered with a
  status that is not a success (a 4xx among them) falls through to the local half of the
  handler, as a request that found no server does: the cache is changed (it holds the typed
  content for the selected day; the deleted note is gone from it) and the operation is
  appended to the queue.
\<close>

theorem rejected_save_or_delete_is_done_locally:
  "(truthy (selectedDate c) \<and> \<not> isOfflineMode c \<and> \<not> ok resp
      \<and> fetch w (save_request apiBaseUrl (token sess)
            \<lparr>nd_date = the (selectedDate c), nd_content = trim (content' c)\<rparr>) = (Resolved resp, w1)
    \<longrightarrow>
      syncQueue_getAll (storage (fst (handleSave fetch apiBaseUrl now isoTime sess (c, w)))) =
        syncQueue_getAll (storage c) @
          [\<lparr>http_method = ''POST'', url = ''/api/notes'', headers = [],
            body = Some \<lparr>nd_date = the (selectedDate c), nd_content = trim (content' c)\<rparr>,
            timestamp = now, retries = 0\<rparr>]
      \<and> map_option content (find (\<lambda>n. date n = the (selectedDate c))
            (notesStorage_load (storage (fst (handleSave fetch apiBaseUrl now isoTime sess (c, w))))
               (user_id (user sess))))
          = Some (trim (content' c)))
   \<and> (truthy (selectedDate c) \<and> currentNoteId c = Some cid \<and> cid \<noteq> []
        \<and> \<not> startsWith cid ''temp_'' \<and> \<not> isOfflineMode c \<and> \<not> ok resp
        \<and> fetch w (delete_request apiBaseUrl (token sess) cid) = (Resolved resp, w1)
    \<longrightarrow>
      syncQueue_getAll (storage (fst (handleDelete fetch apiBaseUrl now sess True (c, w)))) =
        syncQueue_getAll (storage c) @
          [\<lparr>http_method = ''DELETE'', url = ''/api/notes/'' @ cid, headers = [], body = None,
            timestamp = now, retries = 0\<rparr>]
      \<and> notesStorage_load (storage (fst (handleDelete fetch apiBaseUrl now sess True (c, w))))
            (user_id (user sess))
          = filter (\<lambda>n. note_id n \<noteq> cid) (notesStorage_load (storage c) (user_id (user sess))))"
proof (intro conjI impI)
  assume a: "truthy (selectedDate c) \<and> \<not> isOfflineMode c \<and> \<not> ok resp
      \<and> fetch w (save_request apiBaseUrl (token sess)
            \<lparr>nd_date = the (selectedDate c), nd_content = trim (content' c)\<rparr>) = (Resolved resp, w1)"
  then have h: "handleSave fetch apiBaseUrl now isoTime sess (c, w) =
           (save_locally now isoTime sess (the (selectedDate c))
              \<lparr>nd_date = the (selectedDate c), nd_content = trim (content' c)\<rparr>
              (c\<lparr>isSaving := True\<rparr>), w1)"
    using handleSave_rejected [of c fetch w apiBaseUrl sess resp w1 now isoTime] by simp
  show "syncQueue_getAll (storage (fst (handleSave fetch apiBaseUrl now isoTime sess (c, w)))) =
        syncQueue_getAll (storage c) @
          [\<lparr>http_method = ''POST'', url = ''/api/notes'', headers = [],
            body = Some \<lparr>nd_date = the (selectedDate c), nd_content = trim (content' c)\<rparr>,
            timestamp = now, retries = 0\<rparr>]"
    by (simp add: h save_locally_queue)
  show "map_option content (find (\<lambda>n. date n = the (selectedDate c))
            (notesStorage_load (storage (fst (handleSave fetch apiBaseUrl now isoTime sess (c, w))))
               (user_id (user sess))))
          = Some (trim (content' c))"
    using save_locally_cache [of "the (selectedDate c)" now isoTime sess _ "c\<lparr>isSaving := True\<rparr>"]
    by (simp add: h)
next
  assume a: "truthy (selectedDate c) \<and> currentNoteId c = Some cid \<and> cid \<noteq> []
        \<and> \<not> startsWith cid ''temp_'' \<and> \<not> isOfflineMode c \<and> \<not> ok resp
        \<and> fetch w (delete_request apiBaseUrl (token sess) cid) = (Resolved resp, w1)"
  then have h: "handleDelete fetch apiBaseUrl now sess True (c, w) =
           (delete_locally now sess cid (c\<lparr>isDeleting := True\<rparr>), w1)"
    using handleDelete_rejected [of c cid fetch w apiBaseUrl sess resp w1 now] by simp
  show "syncQueue_getAll (storage (fst (handleDelete fetch apiBaseUrl now sess True (c, w)))) =
        syncQueue_getAll (storage c) @
          [\<lparr>http_method = ''DELETE'', url = ''/api/notes/'' @ cid, headers = [], body = None,
            timestamp = now, retries = 0\<rparr>]"
    using a by (simp add: h delete_locally_queue)
  show "notesStorage_load (storage (fst (handleDelete fetch apiBaseUrl now sess True (c, w))))
            (user_id (user sess))
          = filter (\<lambda>n. note_id n \<noteq> cid) (notesStorage_load (storage c) (user_id (user sess)))"
    by (simp add: h delete_locally_cache)
qed

theorem rejected_save_or_delete_is_done_locally_witness:
  "\<not> ok \<lparr>status = 400, json = None\<rparr>
   \<and> snd (handleSave (logging rejecting) ''http://localhost:5000'' 17 ''t0'' alice (client0, []))
       = [save_request ''http://localhost:5000'' ''jwt'' milk]
   \<and> syncQueue_getAll (storage (fst
         (handleSave (logging rejecting) ''http://localhost:5000'' 17 ''t0'' alice (client0, []))))
       = [\<lparr>http_method = ''POST'', url = ''/api/notes'', headers = [], body = Some milk,
           timestamp = 17, retries = 0\<rparr>]
   \<and> map_option content (find (\<lambda>n. date n = ''2024-06-01'')
         (notesStorage_load (storage (fst
            (handleSave (logging rejecting) ''http://localhost:5000'' 17 ''t0'' alice (client0, []))))
            ''u1''))
       = Some ''buy milk''
   \<and> snd (handleDelete (logging rejecting) ''http://localhost:5000'' 18 alice True (client_real, []))
       = [delete_request ''http://localhost:5000'' ''jwt'' ''n1'']
   \<and> syncQueue_getAll (storage (fst
         (handleDelete (logging rejecting) ''http://localhost:5000'' 18 alice True (client_real, []))))
       = [\<lparr>http_method = ''DELETE'', url = ''/api/notes/n1'', headers = [], body = None,
           timestamp = 18, retries = 0\<rparr>]
   \<and> notesStorage_load (storage (fst
         (handleDelete (logging rejecting) ''http://localhost:5000'' 18 alice True (client_real, []))))
         ''u1''
       = [temp_note]"
  using rejected_save_or_delete_is_done_locally
    [of client0 "\<lparr>status = 400, json = None\<rparr>" "logging rejecting" "[]" "''http://localhost:5000''"
      alice "[save_request ''http://localhost:5000'' ''jwt'' milk]" 17 "''t0''" "''n1''"]
    rejected_save_or_delete_is_done_locally
    [of client_real "\<lparr>status = 400, json = None\<rparr>" "logging rejecting" "[]" "''http://localhost:5000''"
      alice "[delete_request ''http://localhost:5000'' ''jwt'' ''n1'']" 18 "''t0''" "''n1''"]
  by code_simp

text \<open>
  C4, as stated, fails: Alice is online with nothing cached or queued, her save reaches the
  server and is answered with the status 400; afterwards the cache holds the note under a
  temporary id and the queue holds the save.
\<close>

theorem rejected_save_counterexample:
  "notesStorage_load (storage client0) ''u1'' = []
   \<and> syncQueue_getAll (storage client0) = []
   \<and> snd (handleSave (logging rejecting) ''http://localhost:5000'' 17 ''t0'' alice (client0, []))
       = [save_request ''http://localhost:5000'' ''jwt'' milk]
   \<and> notesStorage_load (storage (fst
         (handleSave (logging rejecting) ''http://localhost:5000'' 17 ''t0'' alice (client0, []))))
         ''u1''
       = [temp_note]
   \<and> syncQueue_getAll (storage (fst
         (handleSave (logging rejecting) ''http://localhost:5000'' 17 ''t0'' alice (client0, []))))
       = [\<lparr>http_method = ''POST'', url = ''/api/notes'', headers = [], body = Some milk,
           timestamp = 17, retries = 0\<rparr>]"
  by code_simp

text \<open>
  C10. Deleting a note whose id starts with \<^verbatim>\<open>temp_\<close> sends no request and leaves the queue
  as it was, whatever the connectivity; once the user has confirmed, the notes with that id
  are gone from the cache of the user and the other notes stay. A delete is appended to the
  queue only for an id that does not start with \<^verbatim>\<open>temp_\<close>.
\<close>

theorem delete_of_temporary_note_is_not_queued:
  assumes "truthy (selectedDate c)" and "currentNoteId c = Some cid" and "startsWith cid ''temp_''"
  shows "syncQueue_getAll (storage (fst (handleDelete fetch apiBaseUrl now sess confirmed (c, w))))
           = syncQueue_getAll (storage c)
         \<and> snd (handleDelete fetch apiBaseUrl now sess confirmed (c, w)) = w
         \<and> notesStorage_load (storage (fst (handleDelete fetch apiBaseUrl now sess confirmed (c, w))))
              (user_id (user sess))
           = (if confirmed
              then filter (\<lambda>n. note_id n \<noteq> cid) (notesStorage_load (storage c) (user_id (user sess)))
              else notesStorage_load (storage c) (user_id (user sess)))"
proof (cases confirmed)
  case False
  then show ?thesis by (simp add: handleDelete_def)
next
  case True
  have ne: "cid \<noteq> []"
    using assms(3) by (auto simp: startsWith_def)
  have h: "handleDelete fetch apiBaseUrl now sess True (c, w) =
             (delete_locally now sess cid (c\<lparr>isDeleting := True\<rparr>), w)"
    using assms ne by (simp add: handleDelete_def Let_def)
  show ?thesis
    using True assms(3) by (simp add: h delete_locally_queue delete_locally_cache)
qed

theorem delete_of_temporary_note_is_not_queued_witness:
  "truthy (selectedDate client_temp) \<and> currentNoteId client_temp = Some ''temp_17''
   \<and> startsWith ''temp_17'' ''temp_''
   \<and> notesStorage_load (storage client_temp) ''u1'' = [temp_note, server_note]
   \<and> syncQueue_getAll (storage (fst
         (handleDelete (logging unreachable) ''http://localhost:5000'' 18 alice True (client_temp, []))))
       = syncQueue_getAll (storage client_temp)
   \<and> snd (handleDelete (logging unreachable) ''http://localhost:5000'' 18 alice True (client_temp, [])) = []
   \<and> notesStorage_load (storage (fst
         (handleDelete (logging unreachable) ''http://localhost:5000'' 18 alice True (client_temp, []))))
         ''u1''
       = [server_note]"
proof -
  have h1: "truthy (selectedDate client_temp)"
    by (simp add: client_temp_def client0_def)
  have h2: "currentNoteId client_temp = Some ''temp_17''"
    by (simp add: client_temp_def client0_def)
  have h3: "startsWith ''temp_17'' ''temp_''"
    by (simp add: startsWith_def)
  have c: "notesStorage_load (storage client_temp) ''u1'' = [temp_note, server_note]"
    by (simp add: client_temp_def client0_def store_simps)
  have u: "user_id (user alice) = ''u1''"
    by (simp add: alice_def)
  have f: "filter (\<lambda>n. note_id n \<noteq> ''temp_17'') [temp_note, server_note] = [server_note]"
    by (simp add: temp_note_def server_note_def)
  show ?thesis
    using h1 h2 h3 c u f
      delete_of_temporary_note_is_not_queued [OF h1 h2 h3, of "logging unreachable"
        "''http://localhost:5000''" 18 alice True "[]"]
    by simp
qed

end
